theory Spec2Isabelle
  imports Main "HOL-Library.Word"
begin

section \<open>JavaScript strings\<close>

text \<open>
  A JavaScript string is a sequence of 16-bit code units. The two regular expressions of
  \<^verbatim>\<open>validate\<close> carry no \<^verbatim>\<open>u\<close> flag, so they read the string one code unit at a time.
  String literals of the page are written \<open>js ''...''\<close>.
\<close>

type_synonym code_unit = "16 word"

type_synonym jsstring = "code_unit list"

definition js :: "string \<Rightarrow> jsstring" where
  "js cs = map of_char cs"

text \<open>
  The class \<^verbatim>\<open>\s\<close>: the WhiteSpace and LineTerminator code points of ECMAScript
  (TAB, LF, VT, FF, CR, SP, NBSP, U+1680, U+2000..U+200A, U+2028, U+2029, U+202F, U+205F,
  U+3000, U+FEFF).
\<close>

definition js_whitespace :: "code_unit \<Rightarrow> bool" where
  "js_whitespace c =
     (c \<in> set [0x9, 0xA, 0xB, 0xC, 0xD, 0x20, 0xA0, 0x1680, 0x2028, 0x2029, 0x202F, 0x205F,
               0x3000, 0xFEFF]
      \<or> (0x2000 \<le> c \<and> c \<le> 0x200A))"

section \<open>Regular expressions\<close>

text \<open>
  The fragment of the pattern language the page uses: a literal, a character class, sequence
  and the quantifier \<^verbatim>\<open>+\<close>. \<open>Fail\<close>, \<open>Done\<close>, \<open>Or\<close> and \<open>Many\<close> (the quantifier \<^verbatim>\<open>*\<close>)
  are what is left of a pattern once some input is consumed.
\<close>

datatype 'a regex =
    Fail
  | Done
  | Lit 'a
  | Class "'a \<Rightarrow> bool"
  | Or "'a regex" "'a regex"
  | Then "'a regex" "'a regex"
  | Many "'a regex"
  | Many1 "'a regex"

fun nullable :: "'a regex \<Rightarrow> bool" where
  "nullable Fail = False"
| "nullable Done = True"
| "nullable (Lit a) = False"
| "nullable (Class p) = False"
| "nullable (Or r s) = (nullable r \<or> nullable s)"
| "nullable (Then r s) = (nullable r \<and> nullable s)"
| "nullable (Many r) = True"
| "nullable (Many1 r) = nullable r"

fun consume :: "'a \<Rightarrow> 'a regex \<Rightarrow> 'a regex" where
  "consume c Fail = Fail"
| "consume c Done = Fail"
| "consume c (Lit a) = (if c = a then Done else Fail)"
| "consume c (Class p) = (if p c then Done else Fail)"
| "consume c (Or r s) = Or (consume c r) (consume c s)"
| "consume c (Then r s) =
     (if nullable r then Or (Then (consume c r) s) (consume c s) else Then (consume c r) s)"
| "consume c (Many r) = Then (consume c r) (Many r)"
| "consume c (Many1 r) = Then (consume c r) (Many r)"

text \<open>
  \<^verbatim>\<open>/^r$/.test(s)\<close>: both patterns of the page are anchored at both ends and have no
  \<^verbatim>\<open>m\<close> flag, so \<^verbatim>\<open>test\<close> asks whether the whole string matches.
\<close>

fun test :: "'a regex \<Rightarrow> 'a list \<Rightarrow> bool" where
  "test r [] = nullable r"
| "test r (c # cs) = test (consume c r) cs"

text \<open>The declarative reading of a pattern, against which \<open>test\<close> is justified.\<close>

inductive accepts :: "'a regex \<Rightarrow> 'a list \<Rightarrow> bool" where
  acc_Done: "accepts Done []"
| acc_Lit: "accepts (Lit a) [a]"
| acc_Class: "p a \<Longrightarrow> accepts (Class p) [a]"
| acc_OrL: "accepts r w \<Longrightarrow> accepts (Or r s) w"
| acc_OrR: "accepts s w \<Longrightarrow> accepts (Or r s) w"
| acc_Then: "accepts r u \<Longrightarrow> accepts s v \<Longrightarrow> accepts (Then r s) (u @ v)"
| acc_Many0: "accepts (Many r) []"
| acc_Many: "accepts r u \<Longrightarrow> accepts (Many r) v \<Longrightarrow> accepts (Many r) (u @ v)"
| acc_Many1: "accepts r u \<Longrightarrow> accepts (Many r) v \<Longrightarrow> accepts (Many1 r) (u @ v)"

text \<open>\<^verbatim>\<open>/^[A-Za-z]+$/\<close>\<close>

definition lettersOnlyRegex :: "code_unit regex" where
  "lettersOnlyRegex =
     Many1 (Class (\<lambda>c. (of_char CHR ''A'' \<le> c \<and> c \<le> of_char CHR ''Z'')
                     \<or> (of_char CHR ''a'' \<le> c \<and> c \<le> of_char CHR ''z'')))"

text \<open>\<^verbatim>\<open>/^[^\s@]+@[^\s@]+\.[^\s@]+$/\<close>\<close>

definition notSpaceAt :: "code_unit \<Rightarrow> bool" where
  "notSpaceAt c = (\<not> (js_whitespace c \<or> c = of_char CHR ''@''))"

definition emailRegex :: "code_unit regex" where
  "emailRegex =
     Then (Many1 (Class notSpaceAt))
       (Then (Lit (of_char CHR ''@''))
         (Then (Many1 (Class notSpaceAt))
           (Then (Lit (of_char CHR ''.''))
             (Many1 (Class notSpaceAt)))))"

section \<open>The page's state\<close>

text \<open>The four \<^verbatim>\<open>name\<close> attributes of the dialog's text fields, the keys of the draft.\<close>

datatype field = firstName | lastName | email | businessName

definition fieldNames :: "field list" where
  "fieldNames = [firstName, lastName, email, businessName]"

text \<open>\<^verbatim>\<open>Object.keys\<close> of an object keyed by field names.\<close>

definition Object_keys :: "(field \<rightharpoonup> 'v) \<Rightarrow> field list" where
  "Object_keys m = filter (\<lambda>f. m f \<noteq> None) fieldNames"

text \<open>
  The five \<^verbatim>\<open>useState\<close> cells of \<^verbatim>\<open>Home\<close>. A field of the draft
  (\<^verbatim>\<open>Partial<Customer>\<close>) or of the error record that is \<open>None\<close> is \<^verbatim>\<open>undefined\<close>.
\<close>

record page =
  "open" :: bool
  newCustomer :: "field \<rightharpoonup> jsstring"
  errors :: "field \<rightharpoonup> jsstring"
  submitError :: "jsstring option"
  isSubmitting :: bool

text \<open>
  What lies outside the component: the POST requests to \<^verbatim>\<open>/api/customers\<close> that have been
  issued and not yet settled (each with its JSON body, the draft), and how often the list's
  \<^verbatim>\<open>mutate\<close> has been called.
\<close>

record world = page +
  inflight :: "(field \<rightharpoonup> jsstring) list"
  mutate_calls :: nat

text \<open>Truthiness of a value of type \<^verbatim>\<open>string | undefined\<close> (or \<^verbatim>\<open>string | null\<close>).\<close>

fun truthy :: "jsstring option \<Rightarrow> bool" where
  "truthy None = False"
| "truthy (Some v) = (v \<noteq> [])"

text \<open>
  \<^verbatim>\<open>ToString\<close> of a value of type \<^verbatim>\<open>string | undefined\<close>, which
  \<^verbatim>\<open>RegExp.prototype.test\<close> applies to its argument.
\<close>

fun ToString :: "jsstring option \<Rightarrow> jsstring" where
  "ToString None = js ''undefined''"
| "ToString (Some v) = v"

definition emptyCustomer :: "field \<rightharpoonup> jsstring" where
  "emptyCustomer = [firstName \<mapsto> [], lastName \<mapsto> [], email \<mapsto> [], businessName \<mapsto> []]"

definition initial :: world where
  "initial = \<lparr> open = False, newCustomer = emptyCustomer, errors = Map.empty,
               submitError = None, isSubmitting = False, inflight = [], mutate_calls = 0 \<rparr>"

section \<open>The handlers\<close>

definition handleOpen :: "'a page_scheme \<Rightarrow> 'a page_scheme" where
  "handleOpen s = s\<lparr>open := True\<rparr>"

definition handleClose :: "'a page_scheme \<Rightarrow> 'a page_scheme" where
  "handleClose s =
     s\<lparr>open := False, newCustomer := emptyCustomer, errors := Map.empty, submitError := None\<rparr>"

definition handleChange :: "field \<Rightarrow> jsstring \<Rightarrow> 'a page_scheme \<Rightarrow> 'a page_scheme" where
  "handleChange name v s =
     (let s1 = s\<lparr>newCustomer := (newCustomer s)(name \<mapsto> v)\<rparr>
      in if truthy (errors s name) then s1\<lparr>errors := (errors s1)(name \<mapsto> [])\<rparr> else s1)"

text \<open>
  \<^verbatim>\<open>validate\<close>: the three \<^verbatim>\<open>if\<close>/\<^verbatim>\<open>else if\<close> statements fill \<^verbatim>\<open>newErrors\<close> in turn;
  \<^verbatim>\<open>!newCustomer.firstName\<close> holds for \<^verbatim>\<open>undefined\<close> and for the empty string.
\<close>

definition validate :: "'a page_scheme \<Rightarrow> bool \<times> 'a page_scheme" where
  "validate s =
     (let newErrors = Map.empty;
          newErrors =
            (if \<not> truthy (newCustomer s firstName)
               then newErrors(firstName \<mapsto> js ''First name is required'')
             else if \<not> test lettersOnlyRegex (ToString (newCustomer s firstName))
               then newErrors(firstName \<mapsto> js ''First name should contain only letters'')
             else newErrors);
          newErrors =
            (if \<not> truthy (newCustomer s lastName)
               then newErrors(lastName \<mapsto> js ''Last name is required'')
             else if \<not> test lettersOnlyRegex (ToString (newCustomer s lastName))
               then newErrors(lastName \<mapsto> js ''Last name should contain only letters'')
             else newErrors);
          newErrors =
            (if \<not> truthy (newCustomer s email)
               then newErrors(email \<mapsto> js ''Email is required'')
             else if \<not> test emailRegex (ToString (newCustomer s email))
               then newErrors(email \<mapsto> js ''Email should be valid (e.g., user@example.com)'')
             else newErrors)
      in (length (Object_keys newErrors) = 0, s\<lparr>errors := newErrors\<rparr>))"

text \<open>
  What \<^verbatim>\<open>await fetch(...)\<close> can hand back to \<^verbatim>\<open>handleSubmit\<close>. A rejected promise
  throws a value that is an \<^verbatim>\<open>Error\<close> with a message (a \<^verbatim>\<open>TypeError\<close> or a
  \<^verbatim>\<open>SyntaxError\<close> is one), or something else.
\<close>

datatype thrown = Error jsstring | NotAnError

text \<open>
  The values \<^verbatim>\<open>JSON.parse\<close> produces. \<^verbatim>\<open>errorData\<close> has type \<^verbatim>\<open>any\<close>, so the handler
  may meet each of them. A number is given by whether it is zero (the only falsy numbers
  that JSON denotes are \<^verbatim>\<open>0\<close> and \<^verbatim>\<open>-0\<close>) and by the string that \<^verbatim>\<open>ToString\<close> makes of
  it. An object is the list of its members in the order of the text; of two members with
  the same key the later one counts.
\<close>

datatype json =
    JNull
  | JBool bool
  | JNumber bool jsstring
  | JString jsstring
  | JArray "json list"
  | JObject "(jsstring \<times> json) list"

text \<open>\<^verbatim>\<open>response.json()\<close> rejects, or resolves with the parsed body.\<close>

datatype json_result = JsonRejects thrown | JsonValue json

record response =
  status :: nat
  json :: json_result

text \<open>
  The wording of the two \<^verbatim>\<open>TypeError\<close>s that the handler can provoke is the engine's own:
  the one for reading a property of \<^verbatim>\<open>null\<close> and the one for an object that cannot be
  converted to a primitive value.
\<close>

record engine =
  nullReadMessage :: jsstring
  toPrimitiveMessage :: jsstring

text \<open>
  \<^verbatim>\<open>errorData.message\<close> on a value other than \<^verbatim>\<open>null\<close>: a member of an object; undefined
  (\<open>None\<close>) on an object without that member, on an array and on a primitive value.
\<close>

fun property_message :: "json \<Rightarrow> json option" where
  "property_message (JObject members) = map_of (rev members) (js ''message'')"
| "property_message v = None"

text \<open>Truthiness of a parsed value.\<close>

fun json_truthy :: "json \<Rightarrow> bool" where
  "json_truthy JNull = False"
| "json_truthy (JBool b) = b"
| "json_truthy (JNumber zero text) = (\<not> zero)"
| "json_truthy (JString t) = (t \<noteq> [])"
| "json_truthy (JArray xs) = True"
| "json_truthy (JObject members) = True"

text \<open>\<^verbatim>\<open>x || d\<close> with \<open>x\<close> a parsed value or undefined and \<open>d\<close> a string.\<close>

definition or_string :: "json option \<Rightarrow> jsstring \<Rightarrow> json" where
  "or_string x d =
     (case x of None \<Rightarrow> JString d | Some v \<Rightarrow> if json_truthy v then v else JString d)"

text \<open>
  \<^verbatim>\<open>ToString\<close> of a parsed value, as the \<^verbatim>\<open>Error\<close> constructor applies it to its argument.
  An array is joined with commas, \<^verbatim>\<open>null\<close> elements giving the empty string. An object
  gives \<^verbatim>\<open>[object Object]\<close>, unless it has a member \<^verbatim>\<open>toString\<close> of its own: that member
  is not callable, nor does \<^verbatim>\<open>valueOf\<close> yield a primitive value, so the conversion throws
  a \<^verbatim>\<open>TypeError\<close>.
\<close>

fun json_ToString :: "engine \<Rightarrow> json \<Rightarrow> thrown + jsstring"
  and join_elements :: "engine \<Rightarrow> json list \<Rightarrow> thrown + jsstring" where
  "json_ToString e JNull = Inr (js ''null'')"
| "json_ToString e (JBool b) = Inr (if b then js ''true'' else js ''false'')"
| "json_ToString e (JNumber zero text) = Inr text"
| "json_ToString e (JString t) = Inr t"
| "json_ToString e (JArray xs) = join_elements e xs"
| "json_ToString e (JObject members) =
     (if js ''toString'' \<in> set (map fst members) then Inl (Error (toPrimitiveMessage e))
      else Inr (js ''[object Object]''))"
| "join_elements e [] = Inr []"
| "join_elements e (x # xs) =
     (case (if x = JNull then Inr [] else json_ToString e x) of
        Inl err \<Rightarrow> Inl err
      | Inr a \<Rightarrow>
          if xs = [] then Inr a
          else (case join_elements e xs of
                  Inl err \<Rightarrow> Inl err
                | Inr b \<Rightarrow> Inr (a @ js '','' @ b)))"

text \<open>
  What \<^verbatim>\<open>throw new Error(v)\<close> throws: the new error with the message \<^verbatim>\<open>ToString(v)\<close>, or
  the \<^verbatim>\<open>TypeError\<close> of that conversion.
\<close>

definition throw_new_Error :: "engine \<Rightarrow> json \<Rightarrow> thrown" where
  "throw_new_Error e v = (case json_ToString e v of Inl err \<Rightarrow> err | Inr m \<Rightarrow> Error m)"

text \<open>\<^verbatim>\<open>response.ok\<close>: the status is in the range 200 to 299.\<close>

definition ok :: "response \<Rightarrow> bool" where
  "ok r = (200 \<le> status r \<and> status r \<le> 299)"

text \<open>\<^verbatim>\<open>mutate()\<close> of the list: called and not awaited, so only the call is recorded.\<close>

definition mutate :: "world \<Rightarrow> world" where
  "mutate s = s\<lparr>mutate_calls := Suc (mutate_calls s)\<rparr>"

text \<open>
  \<^verbatim>\<open>handleSubmit\<close> up to its \<^verbatim>\<open>await fetch(...)\<close>: validation, the two state updates and
  the POST of \<^verbatim>\<open>JSON.stringify(newCustomer)\<close>.
\<close>

definition handleSubmit :: "world \<Rightarrow> world" where
  "handleSubmit s =
     (case validate s of
        (valid, s1) \<Rightarrow>
          if \<not> valid then s1
          else s1\<lparr>isSubmitting := True, submitError := None,
                  inflight := inflight s1 @ [newCustomer s1]\<rparr>)"

text \<open>
  \<^verbatim>\<open>handleSubmit\<close> from the moment the \<^verbatim>\<open>fetch\<close> promise settles: the rest of the
  \<^verbatim>\<open>try\<close> block (\<open>Inl\<close> is what it throws), the \<^verbatim>\<open>catch\<close> clause and the \<^verbatim>\<open>finally\<close> clause.
\<close>

definition handleSubmit_resume :: "engine \<Rightarrow> thrown + response \<Rightarrow> world \<Rightarrow> world" where
  "handleSubmit_resume e settled s =
     (let tried =
            (case settled of
               Inl err \<Rightarrow> Inl err
             | Inr response \<Rightarrow>
                 if \<not> ok response then
                   (case json response of
                      JsonRejects err \<Rightarrow> Inl err
                    | JsonValue errorData \<Rightarrow>
                        if errorData = JNull then Inl (Error (nullReadMessage e))
                        else Inl (throw_new_Error e
                                    (or_string (property_message errorData)
                                       (js ''Failed to create customer''))))
                 else Inr (handleClose (mutate s)));
          caught =
            (case tried of
               Inl err \<Rightarrow>
                 s\<lparr>submitError :=
                     Some (case err of Error m \<Rightarrow> m
                           | NotAnError \<Rightarrow> js ''An unknown error occurred'')\<rparr>
             | Inr s' \<Rightarrow> s')
      in caught\<lparr>isSubmitting := False\<rparr>)"

section \<open>The view\<close>

text \<open>
  The submit button is rendered with \<^verbatim>\<open>disabled={isSubmitting}\<close>; the form calls
  \<^verbatim>\<open>handleSubmit\<close> only when it is submitted, which a disabled submit button prevents.
\<close>

definition submitDisabled :: "'a page_scheme \<Rightarrow> bool" where
  "submitDisabled s = isSubmitting s"

definition clickSubmit :: "world \<Rightarrow> world" where
  "clickSubmit s = (if submitDisabled s then s else handleSubmit s)"

text \<open>\<^verbatim>\<open>{submitError && <Alert ...>}\<close> inside the dialog, which shows while \<^verbatim>\<open>open\<close>.\<close>

definition alertShown :: "'a page_scheme \<Rightarrow> bool" where
  "alertShown s = (open s \<and> truthy (submitError s))"

text \<open>
  One event of the page: a click on Add Customer, a close of the dialog, an input into one of
  the four text fields, a submission of the form, or the settling of a request in flight.
  The relation does not ask that the dialog be open for the events of the dialog, so it
  allows more than the page does.
\<close>

inductive step :: "world \<Rightarrow> world \<Rightarrow> bool" where
  step_open: "step s (handleOpen s)"
| step_close: "step s (handleClose s)"
| step_change: "step s (handleChange name v s)"
| step_submit: "step s (clickSubmit s)"
| step_settle:
    "i < length (inflight s) \<Longrightarrow>
       step s (handleSubmit_resume e settled
                 (s\<lparr>inflight := take i (inflight s) @ drop (Suc i) (inflight s)\<rparr>))"

inductive reachable :: "world \<Rightarrow> bool" where
  reach_initial: "reachable initial"
| reach_step: "reachable s \<Longrightarrow> step s s' \<Longrightarrow> reachable s'"

text \<open>The settled fetch is a failure: the promise rejected, or the response is not ok.\<close>

definition failed :: "thrown + response \<Rightarrow> bool" where
  "failed settled = (case settled of Inl err \<Rightarrow> True | Inr response \<Rightarrow> \<not> ok response)"

text \<open>
  What the events of the view maintain: at most one request is in flight, and one is in
  flight exactly while \<^verbatim>\<open>isSubmitting\<close> is set.
\<close>

definition in_flight_inv :: "world \<Rightarrow> bool" where
  "in_flight_inv s = (length (inflight s) \<le> 1 \<and> (isSubmitting s \<longleftrightarrow> inflight s \<noteq> []))"

section \<open>The specification's wording of the validation rules\<close>

text \<open>The letters \<^verbatim>\<open>A-Z\<close> and \<^verbatim>\<open>a-z\<close>.\<close>

definition letters :: "code_unit set" where
  "letters = set (js ''ABCDEFGHIJKLMNOPQRSTUVWXYZabcdefghijklmnopqrstuvwxyz'')"

text \<open>One or more characters that are neither whitespace nor \<^verbatim>\<open>@\<close>.\<close>

definition spec_part :: "jsstring \<Rightarrow> bool" where
  "spec_part w = (w \<noteq> [] \<and> (\<forall>c \<in> set w. \<not> js_whitespace c \<and> c \<noteq> of_char CHR ''@''))"

text \<open>Such a part, \<^verbatim>\<open>@\<close>, such a part, a dot, such a part.\<close>

definition spec_email_shape :: "jsstring \<Rightarrow> bool" where
  "spec_email_shape v =
     (\<exists>a b c. v = a @ js ''@'' @ b @ js ''.'' @ c \<and> spec_part a \<and> spec_part b \<and> spec_part c)"

text \<open>Exactly one \<^verbatim>\<open>@\<close>, and at least one dot somewhere after it.\<close>

definition one_at_then_dot :: "jsstring \<Rightarrow> bool" where
  "one_at_then_dot v =
     (count_list v (of_char CHR ''@'') = 1 \<and>
      of_char CHR ''.'' \<in> set (dropWhile (\<lambda>c. c \<noteq> of_char CHR ''@'') v))"

text \<open>
  Section 4.2 of the specification, field by field; a field that is missing from the draft
  counts as empty.
\<close>

definition draft_value :: "(field \<rightharpoonup> jsstring) \<Rightarrow> field \<Rightarrow> jsstring" where
  "draft_value d f = (case d f of None \<Rightarrow> [] | Some v \<Rightarrow> v)"

fun spec_field_fails :: "(field \<rightharpoonup> jsstring) \<Rightarrow> field \<Rightarrow> bool" where
  "spec_field_fails d firstName =
     (draft_value d firstName = [] \<or> (\<exists>c \<in> set (draft_value d firstName). c \<notin> letters))"
| "spec_field_fails d lastName =
     (draft_value d lastName = [] \<or> (\<exists>c \<in> set (draft_value d lastName). c \<notin> letters))"
| "spec_field_fails d email = (\<not> spec_email_shape (draft_value d email))"
| "spec_field_fails d businessName = False"

section \<open>Example states\<close>

text \<open>Concrete drafts on which the theorems below are run.\<close>

definition janeDoe :: page where
  "janeDoe =
     \<lparr> open = True,
       newCustomer = [firstName \<mapsto> js ''Jane'', lastName \<mapsto> js ''Doe'',
                      email \<mapsto> js ''jane@doe.com'', businessName \<mapsto> []],
       errors = [firstName \<mapsto> js ''First name is required''],
       submitError = None, isSubmitting = False \<rparr>"

definition badDraft :: page where
  "badDraft =
     \<lparr> open = True,
       newCustomer = [firstName \<mapsto> js ''J4ne'', lastName \<mapsto> [],
                      email \<mapsto> js ''user@example'', businessName \<mapsto> js ''Acme 1''],
       errors = Map.empty, submitError = None, isSubmitting = False \<rparr>"

definition names_draft :: "jsstring \<Rightarrow> jsstring \<Rightarrow> page" where
  "names_draft v w =
     \<lparr> open = True,
       newCustomer = [firstName \<mapsto> v, lastName \<mapsto> w, email \<mapsto> [], businessName \<mapsto> []],
       errors = Map.empty, submitError = None, isSubmitting = False \<rparr>"

definition email_draft :: "jsstring \<Rightarrow> page" where
  "email_draft v =
     \<lparr> open = True,
       newCustomer = [firstName \<mapsto> js ''Jane'', lastName \<mapsto> js ''Doe'', email \<mapsto> v,
                      businessName \<mapsto> []],
       errors = Map.empty, submitError = None, isSubmitting = False \<rparr>"

text \<open>The dialog with a draft that passes validation, as an explicit state.\<close>

definition editing :: world where
  "editing =
     \<lparr> open = True,
       newCustomer = [firstName \<mapsto> js ''Jane'', lastName \<mapsto> js ''Doe'',
                      email \<mapsto> js ''jane@doe.com'', businessName \<mapsto> []],
       errors = Map.empty, submitError = None, isSubmitting = False,
       inflight = [], mutate_calls = 0 \<rparr>"

text \<open>The same state, reached from the initial one by events of the view.\<close>

definition typedJane :: world where
  "typedJane =
     handleChange email (js ''jane@doe.com'')
       (handleChange lastName (js ''Doe'')
         (handleChange firstName (js ''Jane'') (handleOpen initial)))"

text \<open>That state once \<^verbatim>\<open>handleSubmit\<close> has issued its request: a create is in flight.\<close>

definition submitting :: world where
  "submitting =
     \<lparr> open = True,
       newCustomer = [firstName \<mapsto> js ''Jane'', lastName \<mapsto> js ''Doe'',
                      email \<mapsto> js ''jane@doe.com'', businessName \<mapsto> []],
       errors = Map.empty, submitError = None, isSubmitting = True,
       inflight = [[firstName \<mapsto> js ''Jane'', lastName \<mapsto> js ''Doe'',
                    email \<mapsto> js ''jane@doe.com'', businessName \<mapsto> []]],
       mutate_calls = 0 \<rparr>"

text \<open>A draft that fails validation, before and after a submit has shown its errors.\<close>

definition rejectedDraft :: world where
  "rejectedDraft =
     \<lparr> open = True,
       newCustomer = [firstName \<mapsto> js ''J4ne'', lastName \<mapsto> js ''Doe'',
                      email \<mapsto> js ''user@example'', businessName \<mapsto> []],
       errors = Map.empty, submitError = None, isSubmitting = False,
       inflight = [], mutate_calls = 0 \<rparr>"

definition shownErrors :: world where
  "shownErrors =
     rejectedDraft\<lparr>errors :=
       [firstName \<mapsto> js ''First name should contain only letters'',
        email \<mapsto> js ''Email should be valid (e.g., user@example.com)'']\<rparr>"

text \<open>
  Responses of the create endpoint: status 400 with the bodies
  \<^verbatim>\<open>{"message":"Email already exists"}\<close>, \<^verbatim>\<open>{"message":""}\<close> and \<^verbatim>\<open>{"message":[]}\<close>,
  status 500 with the bodies \<^verbatim>\<open>{"message":42}\<close> and \<^verbatim>\<open>{"message":0}\<close>, and status 201
  with the body \<^verbatim>\<open>{}\<close>.
\<close>

definition emailExists :: response where
  "emailExists =
     \<lparr> status = 400,
       json = JsonValue (JObject [(js ''message'', JString (js ''Email already exists''))]) \<rparr>"

definition emptyMessage :: response where
  "emptyMessage = \<lparr> status = 400, json = JsonValue (JObject [(js ''message'', JString [])]) \<rparr>"

definition arrayMessage :: response where
  "arrayMessage = \<lparr> status = 400, json = JsonValue (JObject [(js ''message'', JArray [])]) \<rparr>"

definition numberMessage :: response where
  "numberMessage =
     \<lparr> status = 500, json = JsonValue (JObject [(js ''message'', JNumber False (js ''42''))]) \<rparr>"

definition zeroMessage :: response where
  "zeroMessage =
     \<lparr> status = 500, json = JsonValue (JObject [(js ''message'', JNumber True (js ''0''))]) \<rparr>"

definition created :: response where
  "created = \<lparr> status = 201, json = JsonValue (JObject []) \<rparr>"

text \<open>An engine, for the examples.\<close>

definition someEngine :: engine where
  "someEngine =
     \<lparr> nullReadMessage = js ''errorData is null'',
       toPrimitiveMessage = js ''Cannot convert object to primitive value'' \<rparr>"

section \<open>The matcher agrees with the declarative reading\<close>

inductive_cases acc_FailE: "accepts Fail w"
inductive_cases acc_DoneE: "accepts Done w"
inductive_cases acc_LitE: "accepts (Lit a) w"
inductive_cases acc_ClassE: "accepts (Class p) w"
inductive_cases acc_OrE: "accepts (Or r s) w"
inductive_cases acc_ThenE: "accepts (Then r s) w"
inductive_cases acc_Many1E: "accepts (Many1 r) w"

lemma accepts_Fail [simp]: "\<not> accepts Fail w"
  by (auto elim: acc_FailE)

lemma accepts_Done [simp]: "accepts Done w \<longleftrightarrow> w = []"
  by (auto elim: acc_DoneE intro: acc_Done)

lemma accepts_Lit [simp]: "accepts (Lit a) w \<longleftrightarrow> w = [a]"
  by (auto elim: acc_LitE intro: acc_Lit)

lemma accepts_Class [simp]: "accepts (Class p) w \<longleftrightarrow> (\<exists>a. w = [a] \<and> p a)"
  by (auto elim: acc_ClassE intro: acc_Class)

lemma accepts_Or [simp]: "accepts (Or r s) w \<longleftrightarrow> accepts r w \<or> accepts s w"
  by (auto elim: acc_OrE intro: acc_OrL acc_OrR)

lemma accepts_Then: "accepts (Then r s) w \<longleftrightarrow> (\<exists>u v. w = u @ v \<and> accepts r u \<and> accepts s v)"
  by (blast elim: acc_ThenE intro: acc_Then)

lemma accepts_Many1: "accepts (Many1 r) w \<longleftrightarrow> (\<exists>u v. w = u @ v \<and> accepts r u \<and> accepts (Many r) v)"
  by (blast elim: acc_Many1E intro: acc_Many1)

lemma accepts_Many_Cons_split:
  "accepts R x \<Longrightarrow> R = Many r \<Longrightarrow> x = c # w \<Longrightarrow>
     \<exists>u v. w = u @ v \<and> accepts r (c # u) \<and> accepts (Many r) v"
proof (induction arbitrary: w rule: accepts.induct)
  case (acc_Many r' u v)
  show ?case
  proof (cases u)
    case Nil
    with acc_Many show ?thesis by simp
  next
    case (Cons a u')
    with acc_Many have "w = u' @ v" "accepts r (c # u')" "accepts (Many r) v" by auto
    then show ?thesis by blast
  qed
qed simp_all

lemma accepts_Many_Cons:
  "accepts (Many r) (c # w) \<longleftrightarrow> (\<exists>u v. w = u @ v \<and> accepts r (c # u) \<and> accepts (Many r) v)"
proof
  assume "accepts (Many r) (c # w)"
  then show "\<exists>u v. w = u @ v \<and> accepts r (c # u) \<and> accepts (Many r) v"
    by (rule accepts_Many_Cons_split) simp_all
next
  assume "\<exists>u v. w = u @ v \<and> accepts r (c # u) \<and> accepts (Many r) v"
  then obtain u v where "w = u @ v" "accepts r (c # u)" "accepts (Many r) v" by blast
  then show "accepts (Many r) (c # w)"
    using acc_Many [of r "c # u" v] by simp
qed

lemma accepts_Nil_nullable: "accepts r w \<Longrightarrow> w = [] \<Longrightarrow> nullable r"
  by (induction rule: accepts.induct) auto

lemma nullable_accepts_Nil: "nullable r \<Longrightarrow> accepts r []"
proof (induction r)
  case (Then r s)
  then show ?case using acc_Then [of r "[]" s "[]"] by simp
next
  case (Many1 r)
  then show ?case using acc_Many1 [of r "[]" "[]"] acc_Many0 [of r] by simp
qed (auto intro: acc_Many0)

lemma nullable_iff: "nullable r \<longleftrightarrow> accepts r []"
  using accepts_Nil_nullable nullable_accepts_Nil by blast

lemma accepts_consume: "accepts (consume c r) w \<longleftrightarrow> accepts r (c # w)"
proof (induction r arbitrary: w)
  case (Then r s)
  show ?case
    by (auto simp: accepts_Then Then nullable_iff Cons_eq_append_conv)
next
  case (Many r)
  show ?case
    by (simp add: accepts_Then Many accepts_Many_Cons)
next
  case (Many1 r)
  show ?case
    by (auto simp: accepts_Then Many1 accepts_Many_Cons accepts_Many1 Cons_eq_append_conv)
qed auto

lemma test_accepts: "test r w \<longleftrightarrow> accepts r w"
  by (induction w arbitrary: r) (simp_all add: nullable_iff accepts_consume)

lemma accepts_Many_Class: "accepts (Many (Class p)) w \<longleftrightarrow> (\<forall>c \<in> set w. p c)"
proof (induction w)
  case Nil
  show ?case by (simp add: acc_Many0)
next
  case (Cons c w)
  show ?case by (simp add: accepts_Many_Cons Cons)
qed

lemma accepts_Many1_Class:
  "accepts (Many1 (Class p)) w \<longleftrightarrow> w \<noteq> [] \<and> (\<forall>c \<in> set w. p c)"
proof (cases w)
  case Nil
  then show ?thesis by (simp add: accepts_Many1)
next
  case (Cons a w')
  have "(\<exists>u v. a # w' = u @ v \<and> (\<exists>b. u = [b] \<and> p b) \<and> (\<forall>c \<in> set v. p c))
          \<longleftrightarrow> p a \<and> (\<forall>c \<in> set w'. p c)"
  proof
    assume "\<exists>u v. a # w' = u @ v \<and> (\<exists>b. u = [b] \<and> p b) \<and> (\<forall>c \<in> set v. p c)"
    then show "p a \<and> (\<forall>c \<in> set w'. p c)" by auto
  next
    assume "p a \<and> (\<forall>c \<in> set w'. p c)"
    then have "a # w' = [a] @ w' \<and> (\<exists>b. [a] = [b] \<and> p b) \<and> (\<forall>c \<in> set w'. p c)" by simp
    then show "\<exists>u v. a # w' = u @ v \<and> (\<exists>b. u = [b] \<and> p b) \<and> (\<forall>c \<in> set v. p c)" by blast
  qed
  with Cons show ?thesis by (simp add: accepts_Many1 accepts_Many_Class)
qed

section \<open>The two patterns of the page\<close>

lemma in_code_range:
  fixes c :: code_unit
  assumes "of_nat lo \<le> c" "c \<le> of_nat hi" "lo \<le> hi" "hi < 65536"
  shows "c \<in> of_nat ` set [lo..<Suc hi]"
proof -
  from assms have "lo \<le> unat c" "unat c \<le> hi"
    by (simp_all add: word_le_nat_alt unat_of_nat take_bit_nat_eq_self)
  then have "unat c \<in> set [lo..<Suc hi]" by auto
  then have "of_nat (unat c) \<in> (of_nat :: nat \<Rightarrow> code_unit) ` set [lo..<Suc hi]" by (rule imageI)
  then show ?thesis by simp
qed

lemma upper_range:
  fixes c :: code_unit
  shows "(0x41 \<le> c \<and> c \<le> 0x5A) \<longleftrightarrow> c \<in> set (js ''ABCDEFGHIJKLMNOPQRSTUVWXYZ'')"
proof
  assume "0x41 \<le> c \<and> c \<le> 0x5A"
  then have "c \<in> of_nat ` set [65..<Suc 90]"
    using in_code_range [of 65 c 90] by simp
  then show "c \<in> set (js ''ABCDEFGHIJKLMNOPQRSTUVWXYZ'')"
    by (simp add: js_def del: upt_Suc) 
next
  assume "c \<in> set (js ''ABCDEFGHIJKLMNOPQRSTUVWXYZ'')"
  then show "0x41 \<le> c \<and> c \<le> 0x5A"
    by (auto simp: js_def)
qed

lemma lower_range:
  fixes c :: code_unit
  shows "(0x61 \<le> c \<and> c \<le> 0x7A) \<longleftrightarrow> c \<in> set (js ''abcdefghijklmnopqrstuvwxyz'')"
proof
  assume "0x61 \<le> c \<and> c \<le> 0x7A"
  then have "c \<in> of_nat ` set [97..<Suc 122]"
    using in_code_range [of 97 c 122] by simp
  then show "c \<in> set (js ''abcdefghijklmnopqrstuvwxyz'')"
    by (simp add: js_def del: upt_Suc)
next
  assume "c \<in> set (js ''abcdefghijklmnopqrstuvwxyz'')"
  then show "0x61 \<le> c \<and> c \<le> 0x7A"
    by (auto simp: js_def)
qed

lemma js_append: "js (xs @ ys) = js xs @ js ys"
  by (simp add: js_def)

lemma letters_ranges:
  fixes c :: code_unit
  shows "c \<in> letters \<longleftrightarrow> (0x41 \<le> c \<and> c \<le> 0x5A) \<or> (0x61 \<le> c \<and> c \<le> 0x7A)"
proof -
  have "letters = set (js ''ABCDEFGHIJKLMNOPQRSTUVWXYZ'') \<union> set (js ''abcdefghijklmnopqrstuvwxyz'')"
    unfolding letters_def
    using js_append [of "''ABCDEFGHIJKLMNOPQRSTUVWXYZ''" "''abcdefghijklmnopqrstuvwxyz''"]
    by (simp del: set_append add: set_append [symmetric])
  then show ?thesis
    using upper_range [of c] lower_range [of c] by blast
qed

lemma test_lettersOnlyRegex:
  "test lettersOnlyRegex v \<longleftrightarrow> v \<noteq> [] \<and> (\<forall>c \<in> set v. c \<in> letters)"
  by (simp add: test_accepts lettersOnlyRegex_def accepts_Many1_Class letters_ranges)

lemma accepts_part: "accepts (Many1 (Class notSpaceAt)) w \<longleftrightarrow> spec_part w"
  by (auto simp: accepts_Many1_Class spec_part_def notSpaceAt_def)

lemma test_emailRegex: "test emailRegex v \<longleftrightarrow> spec_email_shape v"
  by (simp add: test_accepts emailRegex_def accepts_Then accepts_part spec_email_shape_def
      js_def) blast

lemma shape_one_at_then_dot:
  assumes "spec_email_shape v"
  shows "one_at_then_dot v"
proof -
  from assms obtain a b c where
    v: "v = a @ js ''@'' @ b @ js ''.'' @ c" and
    parts: "spec_part a" "spec_part b" "spec_part c"
    unfolding spec_email_shape_def by blast
  let ?at = "of_char CHR ''@'' :: code_unit"
  from parts have no_at: "?at \<notin> set a" "?at \<notin> set b" "?at \<notin> set c"
    unfolding spec_part_def by blast+
  then have "count_list a ?at = 0" "count_list b ?at = 0" "count_list c ?at = 0"
    by simp_all
  then have "count_list v ?at = 1"
    by (simp add: v js_def)
  moreover have "dropWhile (\<lambda>x. x \<noteq> ?at) v = js ''@'' @ b @ js ''.'' @ c"
  proof -
    have "dropWhile (\<lambda>x. x \<noteq> ?at) (a @ js ''@'' @ b @ js ''.'' @ c)
            = dropWhile (\<lambda>x. x \<noteq> ?at) (js ''@'' @ b @ js ''.'' @ c)"
      by (rule dropWhile_append2) (use no_at(1) in auto)
    then show ?thesis by (simp add: v js_def)
  qed
  ultimately show ?thesis
    by (simp add: one_at_then_dot_def js_def)
qed

section \<open>What validate leaves in the error record\<close>

lemma validate_snd: "snd (validate s) = s\<lparr>errors := errors (snd (validate s))\<rparr>"
  by (simp add: validate_def Let_def)

lemma validate_firstName:
  "errors (snd (validate s)) firstName =
     (if draft_value (newCustomer s) firstName = [] then Some (js ''First name is required'')
      else if \<exists>c \<in> set (draft_value (newCustomer s) firstName). c \<notin> letters
        then Some (js ''First name should contain only letters'')
      else None)"
  by (cases "newCustomer s firstName")
    (simp_all add: validate_def Let_def draft_value_def test_lettersOnlyRegex)

lemma validate_email:
  "errors (snd (validate s)) email =
     (if draft_value (newCustomer s) email = [] then Some (js ''Email is required'')
      else if \<not> spec_email_shape (draft_value (newCustomer s) email)
        then Some (js ''Email should be valid (e.g., user@example.com)'')
      else None)"
  by (cases "newCustomer s email")
    (simp_all add: validate_def Let_def draft_value_def test_emailRegex)

lemma validate_businessName: "errors (snd (validate s)) businessName = None"
  by (simp add: validate_def Let_def)


lemma validate_lastName:
  "errors (snd (validate s)) lastName =
     (if draft_value (newCustomer s) lastName = [] then Some (js ''Last name is required'')
      else if \<exists>c \<in> set (draft_value (newCustomer s) lastName). c \<notin> letters
        then Some (js ''Last name should contain only letters'')
      else None)"
  by (cases "newCustomer s lastName")
    (simp_all add: validate_def Let_def draft_value_def test_lettersOnlyRegex)

lemma set_fieldNames: "set fieldNames = UNIV"
proof -
  have "f \<in> set fieldNames" for f
    by (cases f) (simp_all add: fieldNames_def)
  then show ?thesis by blast
qed

lemma Object_keys_empty: "length (Object_keys m) = 0 \<longleftrightarrow> (\<forall>f. m f = None)"
  by (simp add: Object_keys_def filter_empty_conv set_fieldNames)

lemma validate_fst_keys:
  "fst (validate s) = (length (Object_keys (errors (snd (validate s)))) = 0)"
  by (simp add: validate_def Let_def)

lemma validate_fst: "fst (validate s) \<longleftrightarrow> (\<forall>f. errors (snd (validate s)) f = None)"
  by (simp only: validate_fst_keys Object_keys_empty)

lemma shape_nonempty: "spec_email_shape v \<Longrightarrow> v \<noteq> []"
  by (auto simp: spec_email_shape_def js_def)

lemma validate_fails_iff:
  "errors (snd (validate s)) f \<noteq> None \<longleftrightarrow> spec_field_fails (newCustomer s) f"
proof (cases f)
  case firstName
  then show ?thesis by (simp add: validate_firstName)
next
  case lastName
  then show ?thesis by (simp add: validate_lastName)
next
  case email
  then show ?thesis using shape_nonempty [of "draft_value (newCustomer s) email"]
    by (auto simp add: validate_email)
next
  case businessName
  then show ?thesis by (simp add: validate_businessName)
qed

lemma validate_ignores_errors:
  "errors (snd (validate (s\<lparr>errors := e\<rparr>))) = errors (snd (validate s))"
  by (simp add: validate_def Let_def)

lemmas eval_defs =
  validate_def Let_def Object_keys_def fieldNames_def lettersOnlyRegex_def emailRegex_def
  notSpaceAt_def js_whitespace_def js_def

section \<open>Validation\<close>

text \<open>
  C2. \<open>validate\<close> returns true exactly when no field produced an error. It changes nothing
  but the error record, which it replaces as a whole: the new record does not depend on the
  old one, its keys are exactly the fields that fail the rules of the specification, and
  \<open>businessName\<close> is never among them.
\<close>

theorem validate_result:
  "(fst (validate s) \<longleftrightarrow> (\<forall>f. errors (snd (validate s)) f = None))
   \<and> (fst (validate s) \<longleftrightarrow> (\<forall>f. \<not> spec_field_fails (newCustomer s) f))
   \<and> snd (validate s) = s\<lparr>errors := errors (snd (validate s))\<rparr>
   \<and> errors (snd (validate (s\<lparr>errors := e\<rparr>))) = errors (snd (validate s))
   \<and> dom (errors (snd (validate s))) = {f. spec_field_fails (newCustomer s) f}
   \<and> businessName \<notin> dom (errors (snd (validate s)))"
proof -
  have a: "fst (validate s) \<longleftrightarrow> (\<forall>f. errors (snd (validate s)) f = None)"
    by (rule validate_fst)
  have d: "dom (errors (snd (validate s))) = {f. spec_field_fails (newCustomer s) f}"
    using validate_fails_iff [of s] by (auto simp: dom_def)
  have b: "fst (validate s) \<longleftrightarrow> (\<forall>f. \<not> spec_field_fails (newCustomer s) f)"
    using a validate_fails_iff [of s] by blast
  have c: "businessName \<notin> dom (errors (snd (validate s)))"
    by (simp add: dom_def validate_businessName)
  from a b c d validate_snd [of s] validate_ignores_errors [where s = s and e = e]
  show ?thesis by blast
qed

theorem validate_result_witness:
  "fst (validate janeDoe) \<and> errors (snd (validate janeDoe)) = Map.empty
   \<and> (\<forall>f. \<not> spec_field_fails (newCustomer janeDoe) f)
   \<and> \<not> fst (validate badDraft)
   \<and> errors (snd (validate badDraft)) =
       [firstName \<mapsto> js ''First name should contain only letters'',
        lastName \<mapsto> js ''Last name is required'',
        email \<mapsto> js ''Email should be valid (e.g., user@example.com)'']
   \<and> {f. spec_field_fails (newCustomer badDraft) f} = {firstName, lastName, email}"
proof -
  have j: "fst (validate janeDoe)"
    by (simp add: janeDoe_def eval_defs)
  have je: "errors (snd (validate janeDoe)) = Map.empty"
    using j validate_result [of janeDoe] by auto
  have b: "errors (snd (validate badDraft)) =
       [firstName \<mapsto> js ''First name should contain only letters'',
        lastName \<mapsto> js ''Last name is required'',
        email \<mapsto> js ''Email should be valid (e.g., user@example.com)'']"
    by (simp add: badDraft_def eval_defs)
  have bd: "dom (errors (snd (validate badDraft))) = {firstName, lastName, email}"
    by (simp add: b) blast
  have js: "\<forall>f. \<not> spec_field_fails (newCustomer janeDoe) f"
    using j validate_result [of janeDoe] by blast
  have bf: "\<not> fst (validate badDraft)"
    by (simp add: badDraft_def eval_defs)
  have bs: "{f. spec_field_fails (newCustomer badDraft) f} = {firstName, lastName, email}"
    using bd validate_result [of badDraft] by simp
  from j je js bf b bs show ?thesis by blast
qed

text \<open>
  C3. A first name (and likewise a last name) that is the empty string gets the "required"
  message; a non-empty one gets the "only letters" message exactly when one of its characters
  is outside \<^verbatim>\<open>A-Z\<close>/\<^verbatim>\<open>a-z\<close>, and no error when all are letters.
\<close>

theorem name_rule:
  assumes "newCustomer s firstName = Some v" and "newCustomer s lastName = Some w"
  shows "errors (snd (validate s)) firstName =
           (if v = [] then Some (js ''First name is required'')
            else if \<exists>c \<in> set v. c \<notin> letters
              then Some (js ''First name should contain only letters'')
            else None)
         \<and> errors (snd (validate s)) lastName =
           (if w = [] then Some (js ''Last name is required'')
            else if \<exists>c \<in> set w. c \<notin> letters
              then Some (js ''Last name should contain only letters'')
            else None)"
  using assms by (simp add: validate_firstName validate_lastName draft_value_def)

theorem name_rule_witness:
  "errors (snd (validate (names_draft [] (js ''Doe'')))) firstName
     = Some (js ''First name is required'')
   \<and> errors (snd (validate (names_draft [] (js ''Doe'')))) lastName = None
   \<and> errors (snd (validate (names_draft (js ''Mary Ann'') (js ''Doe2'')))) firstName
     = Some (js ''First name should contain only letters'')
   \<and> errors (snd (validate (names_draft (js ''Mary Ann'') (js ''Doe2'')))) lastName
     = Some (js ''Last name should contain only letters'')
   \<and> errors (snd (validate (names_draft (js ''Anne-Marie'') (js ''Jos'' @ [0xE9])))) firstName
     = Some (js ''First name should contain only letters'')
   \<and> errors (snd (validate (names_draft (js ''Anne-Marie'') (js ''Jos'' @ [0xE9])))) lastName
     = Some (js ''Last name should contain only letters'')"
proof -
  have 1: "newCustomer (names_draft v w) firstName = Some v"
          "newCustomer (names_draft v w) lastName = Some w" for v w
    by (simp_all add: names_draft_def)
  have 2: "of_char CHR '' '' \<notin> letters" "of_char CHR ''2'' \<notin> letters"
          "of_char CHR ''-'' \<notin> letters" "0xE9 \<notin> letters"
          "set (js ''Doe'') \<subseteq> letters"
    by (simp_all add: letters_def js_def)
  show ?thesis
    using name_rule [OF 1, of "[]" "js ''Doe''"]
          name_rule [OF 1, of "js ''Mary Ann''" "js ''Doe2''"]
          name_rule [OF 1, of "js ''Anne-Marie''" "js ''Jos'' @ [0xE9]"] 2
    by (auto simp: js_def)
qed

text \<open>
  C4. An email passes exactly when it has the shape "part, \<^verbatim>\<open>@\<close>, part, dot, part" with parts
  of one or more characters that are neither whitespace nor \<^verbatim>\<open>@\<close>. The empty email gets the
  "required" message; a non-empty one that has not exactly one \<^verbatim>\<open>@\<close> followed by a dot gets the
  "valid email" message. \<^verbatim>\<open>user@example.com\<close> has the shape, \<^verbatim>\<open>user@example\<close> and
  \<^verbatim>\<open>user example.com\<close> have not.
\<close>

theorem email_rule:
  assumes "newCustomer s email = Some v"
  shows "(errors (snd (validate s)) email = None \<longleftrightarrow> spec_email_shape v)
         \<and> (v = [] \<longrightarrow> errors (snd (validate s)) email = Some (js ''Email is required''))
         \<and> (v \<noteq> [] \<and> \<not> spec_email_shape v \<longrightarrow>
              errors (snd (validate s)) email
                = Some (js ''Email should be valid (e.g., user@example.com)''))
         \<and> (v \<noteq> [] \<and> \<not> one_at_then_dot v \<longrightarrow>
              errors (snd (validate s)) email
                = Some (js ''Email should be valid (e.g., user@example.com)''))
         \<and> spec_email_shape (js ''user@example.com'')
         \<and> \<not> spec_email_shape (js ''user@example'')
         \<and> \<not> spec_email_shape (js ''user example.com'')"
proof -
  have ex: "spec_email_shape (js ''user@example.com'')"
           "\<not> spec_email_shape (js ''user@example'')"
           "\<not> spec_email_shape (js ''user example.com'')"
    unfolding test_emailRegex [symmetric]
    by (simp_all add: emailRegex_def notSpaceAt_def js_whitespace_def js_def)
  have "draft_value (newCustomer s) email = v"
    using assms by (simp add: draft_value_def)
  then show ?thesis
    using shape_nonempty [of v] shape_one_at_then_dot [of v] ex
    by (auto simp: validate_email)
qed

theorem email_rule_witness:
  "errors (snd (validate (email_draft (js ''user@example.com'')))) email = None
   \<and> errors (snd (validate (email_draft []))) email = Some (js ''Email is required'')
   \<and> errors (snd (validate (email_draft (js ''user@example'')))) email
       = Some (js ''Email should be valid (e.g., user@example.com)'')
   \<and> errors (snd (validate (email_draft (js ''user example.com'')))) email
       = Some (js ''Email should be valid (e.g., user@example.com)'')
   \<and> errors (snd (validate (email_draft (js ''a@b@c.de'')))) email
       = Some (js ''Email should be valid (e.g., user@example.com)'')"
proof -
  have 1: "newCustomer (email_draft v) email = Some v" for v
    by (simp add: email_draft_def)
  have 2: "\<not> one_at_then_dot (js ''a@b@c.de'')" "js ''a@b@c.de'' \<noteq> []"
          "\<not> one_at_then_dot (js ''user@example'')" "js ''user@example'' \<noteq> []"
    by (simp_all add: one_at_then_dot_def js_def)
  show ?thesis
    using email_rule [OF 1, of "js ''user@example.com''"] email_rule [OF 1, of "[]"]
          email_rule [OF 1, of "js ''user@example''"]
          email_rule [OF 1, of "js ''user example.com''"]
          email_rule [OF 1, of "js ''a@b@c.de''"] 2
    by (simp add: js_def)
qed

section \<open>Submitting\<close>

lemma handleSubmit_invalid:
  "\<not> fst (validate s) \<Longrightarrow> handleSubmit s = snd (validate s)"
  by (cases "validate s") (simp add: handleSubmit_def)

lemma handleSubmit_valid:
  "fst (validate s) \<Longrightarrow>
     handleSubmit s =
       s\<lparr>errors := Map.empty, isSubmitting := True, submitError := None,
         inflight := inflight s @ [newCustomer s]\<rparr>"
proof -
  assume v: "fst (validate s)"
  then have "errors (snd (validate s)) = Map.empty"
    using validate_fst [of s] by auto
  then have "snd (validate s) = s\<lparr>errors := Map.empty\<rparr>"
    by (subst validate_snd) simp
  with v show ?thesis
    by (cases "validate s") (simp add: handleSubmit_def)
qed

lemma resume_inflight: "inflight (handleSubmit_resume e settled s) = inflight s"
  by (simp add: handleSubmit_resume_def Let_def handleClose_def mutate_def
      split: sum.split json_result.split thrown.split)

lemma resume_isSubmitting: "\<not> isSubmitting (handleSubmit_resume e settled s)"
  by (simp add: handleSubmit_resume_def Let_def)

lemma resume_rejected:
  "handleSubmit_resume e (Inl err) s =
     s\<lparr>submitError :=
          Some (case err of Error m \<Rightarrow> m | NotAnError \<Rightarrow> js ''An unknown error occurred''),
       isSubmitting := False\<rparr>"
  by (simp add: handleSubmit_resume_def Let_def)

lemma resume_not_ok:
  "\<not> ok r \<Longrightarrow> json r = JsonValue v \<Longrightarrow> v \<noteq> JNull \<Longrightarrow>
     handleSubmit_resume e (Inr r) s =
       s\<lparr>submitError :=
            Some (case throw_new_Error e
                         (or_string (property_message v) (js ''Failed to create customer'')) of
                    Error m \<Rightarrow> m
                  | NotAnError \<Rightarrow> js ''An unknown error occurred''),
         isSubmitting := False\<rparr>"
  by (simp add: handleSubmit_resume_def Let_def)

lemma resume_ok:
  "ok r \<Longrightarrow>
     handleSubmit_resume e (Inr r) s =
       (handleClose s)\<lparr>isSubmitting := False, mutate_calls := Suc (mutate_calls s)\<rparr>"
  by (simp add: handleSubmit_resume_def Let_def handleClose_def mutate_def)

lemma resume_failed:
  "failed settled \<Longrightarrow>
     \<exists>m. handleSubmit_resume e settled s = s\<lparr>submitError := Some m, isSubmitting := False\<rparr>"
  by (auto simp: failed_def handleSubmit_resume_def Let_def
      split: sum.split json_result.split thrown.split)

lemma new_Error_string: "throw_new_Error e (JString t) = Error t"
  by (simp add: throw_new_Error_def)

lemma or_string_falsy:
  "x = None \<or> (\<exists>y. x = Some y \<and> \<not> json_truthy y) \<Longrightarrow> or_string x d = JString d"
  by (auto simp: or_string_def)

lemma or_string_truthy: "json_truthy y \<Longrightarrow> or_string (Some y) d = y"
  by (simp add: or_string_def)

lemma editing_valid: "fst (validate editing)"
  by (simp add: editing_def eval_defs)

lemma typedJane_eq: "typedJane = editing"
  by (simp add: typedJane_def editing_def handleChange_def handleOpen_def initial_def
      emptyCustomer_def Let_def fun_upd_twist)

lemma step_inv:
  assumes "step s s'" and "in_flight_inv s"
  shows "in_flight_inv s'"
  using assms
proof (induction rule: step.induct)
  case (step_open s)
  then show ?case by (simp add: in_flight_inv_def handleOpen_def)
next
  case (step_close s)
  then show ?case by (simp add: in_flight_inv_def handleClose_def)
next
  case (step_change name v s)
  then show ?case by (simp add: in_flight_inv_def handleChange_def Let_def)
next
  case (step_submit s)
  show ?case
  proof (cases "isSubmitting s")
    case True
    with step_submit show ?thesis by (simp add: clickSubmit_def submitDisabled_def)
  next
    case False
    with step_submit have e: "inflight s = []" by (simp add: in_flight_inv_def)
    show ?thesis
    proof (cases "fst (validate s)")
      case True
      have "in_flight_inv (handleSubmit s)"
        by (subst handleSubmit_valid [OF True], simp add: in_flight_inv_def e)
      with False show ?thesis by (simp add: clickSubmit_def submitDisabled_def)
    next
      case invalid: False
      have "handleSubmit s = s\<lparr>errors := errors (snd (validate s))\<rparr>"
        using handleSubmit_invalid [OF invalid] validate_snd [of s] by (rule trans)
      then have "in_flight_inv (handleSubmit s)"
        using step_submit by (simp add: in_flight_inv_def)
      with False show ?thesis by (simp add: clickSubmit_def submitDisabled_def)
    qed
  qed
next
  case (step_settle i s e settled)
  then have one: "inflight s \<noteq> []" "length (inflight s) \<le> 1"
    by (auto simp: in_flight_inv_def)
  define rest where "rest = take i (inflight s) @ drop (Suc i) (inflight s)"
  from one step_settle have "rest = []"
    unfolding rest_def by (cases "inflight s") auto
  then have "in_flight_inv (handleSubmit_resume e settled (s\<lparr>inflight := rest\<rparr>))"
    by (simp add: in_flight_inv_def resume_inflight resume_isSubmitting)
  then show ?case
    unfolding rest_def .
qed

lemma reachable_inv: "reachable s \<Longrightarrow> in_flight_inv s"
proof (induction rule: reachable.induct)
  case reach_initial
  show ?case by (simp add: in_flight_inv_def initial_def)
next
  case (reach_step s s')
  then show ?case using step_inv by blast
qed

lemma submitting_reached: "clickSubmit typedJane = submitting"
proof -
  have "clickSubmit typedJane = handleSubmit editing"
    by (simp add: typedJane_eq clickSubmit_def submitDisabled_def editing_def)
  also have "\<dots> = submitting"
    by (simp add: handleSubmit_valid [OF editing_valid]) (simp add: editing_def submitting_def)
  finally show ?thesis .
qed

lemma reachable_submitting: "reachable submitting"
  unfolding submitting_reached [symmetric] typedJane_def
  by (intro reach_step [OF _ step_submit] reach_step [OF _ step_change]
      reach_step [OF _ step_open] reach_initial)

text \<open>
  C1, as stated: a second \<open>handleSubmit\<close> while a create is in flight would be a no-op. It is
  not: the handler has no check of \<^verbatim>\<open>isSubmitting\<close>, and from the submitting state it issues
  a second request.
\<close>

theorem second_submit_counterexample:
  "reachable submitting
   \<and> isSubmitting submitting
   \<and> handleSubmit submitting \<noteq> submitting
   \<and> length (inflight submitting) = 1
   \<and> length (inflight (handleSubmit submitting)) = 2"
proof -
  have v: "fst (validate submitting)"
    by (simp add: submitting_def eval_defs)
  have 1: "length (inflight submitting) = 1" "isSubmitting submitting"
    by (simp_all add: submitting_def)
  have 2: "length (inflight (handleSubmit submitting)) = 2"
    by (simp add: handleSubmit_valid [OF v] 1)
  from 1 2 have "handleSubmit submitting \<noteq> submitting"
    by auto
  with 1 2 reachable_submitting show ?thesis by blast
qed

text \<open>
  C1, amended: in every state that the events of the view can reach, at most one create
  request is in flight, one is in flight exactly while \<^verbatim>\<open>isSubmitting\<close> is set, and a
  submission of the form in such a state changes nothing, because the submit button is
  disabled. The guard is the view's, not the handler's.
\<close>

theorem one_submission_in_flight:
  assumes "reachable s"
  shows "length (inflight s) \<le> 1
         \<and> (isSubmitting s \<longleftrightarrow> inflight s \<noteq> [])
         \<and> (isSubmitting s \<longrightarrow> clickSubmit s = s)"
  using reachable_inv [OF assms]
  by (simp add: in_flight_inv_def clickSubmit_def submitDisabled_def)

theorem one_submission_in_flight_witness:
  "reachable (clickSubmit typedJane)
   \<and> isSubmitting (clickSubmit typedJane)
   \<and> inflight (clickSubmit typedJane) = [newCustomer typedJane]
   \<and> clickSubmit (clickSubmit typedJane) = clickSubmit typedJane"
proof -
  have r: "reachable (clickSubmit typedJane)"
    unfolding typedJane_def
    by (intro reach_step [OF _ step_submit] reach_step [OF _ step_change]
        reach_step [OF _ step_open] reach_initial)
  have "clickSubmit typedJane = handleSubmit editing"
    by (simp add: typedJane_eq clickSubmit_def submitDisabled_def editing_def)
  also have "\<dots> = editing\<lparr>errors := Map.empty, isSubmitting := True, submitError := None,
         inflight := inflight editing @ [newCustomer editing]\<rparr>"
    using editing_valid by (rule handleSubmit_valid)
  finally have c: "clickSubmit typedJane = editing\<lparr>errors := Map.empty, isSubmitting := True, submitError := None,
         inflight := inflight editing @ [newCustomer editing]\<rparr>" .
  have s: "isSubmitting (clickSubmit typedJane)"
    by (simp add: c)
  have i: "inflight (clickSubmit typedJane) = [newCustomer typedJane]"
    by (simp add: c) (simp add: typedJane_eq editing_def)
  from one_submission_in_flight [OF r] r s i show ?thesis by blast
qed

text \<open>
  C5, as stated: the submit error would be the body's \<^verbatim>\<open>message\<close> whenever the field is
  present. With the body \<^verbatim>\<open>{"message":""}\<close> the field is present and the empty string; the
  operator \<^verbatim>\<open>||\<close> takes the fallback.
\<close>

theorem submit_rejected_counterexample:
  "fst (validate editing) \<and> \<not> ok emptyMessage
   \<and> json emptyMessage = JsonValue (JObject [(js ''message'', JString [])])
   \<and> submitError (handleSubmit_resume someEngine (Inr emptyMessage) (handleSubmit editing))
        = Some (js ''Failed to create customer'')
   \<and> submitError (handleSubmit_resume someEngine (Inr emptyMessage) (handleSubmit editing))
        \<noteq> Some []"
proof -
  have n: "\<not> ok emptyMessage"
    "json emptyMessage = JsonValue (JObject [(js ''message'', JString [])])"
    "JObject [(js ''message'', JString [])] \<noteq> JNull"
    by (simp_all add: emptyMessage_def ok_def)
  have "submitError (handleSubmit_resume someEngine (Inr emptyMessage) (handleSubmit editing))
        = Some (js ''Failed to create customer'')"
    by (simp add: resume_not_ok [OF n] or_string_def throw_new_Error_def)
  then show ?thesis using n editing_valid by (simp add: js_def)
qed

text \<open>
  C5, amended: after a submit of a valid draft whose request gets a response that is not ok,
  the dialog is as open as before, the button is enabled again, the draft is unchanged, the
  error record is empty and the list is not revalidated. If the body parses to a value other
  than \<^verbatim>\<open>null\<close>, the submit error is the body's \<^verbatim>\<open>message\<close> when that is a non-empty string,
  "Failed to create customer" when the field is absent or falsy (the empty string, \<^verbatim>\<open>null\<close>,
  \<^verbatim>\<open>false\<close>, zero), and the string that \<^verbatim>\<open>ToString\<close> makes of the field when it is any
  other value.
\<close>

theorem submit_rejected:
  assumes "fst (validate s)" and "\<not> ok r"
  shows "open (handleSubmit_resume e (Inr r) (handleSubmit s)) = open s
         \<and> isSubmitting (handleSubmit_resume e (Inr r) (handleSubmit s)) = False
         \<and> \<not> submitDisabled (handleSubmit_resume e (Inr r) (handleSubmit s))
         \<and> newCustomer (handleSubmit_resume e (Inr r) (handleSubmit s)) = newCustomer s
         \<and> errors (handleSubmit_resume e (Inr r) (handleSubmit s)) = Map.empty
         \<and> mutate_calls (handleSubmit_resume e (Inr r) (handleSubmit s)) = mutate_calls s
         \<and> inflight (handleSubmit s) = inflight s @ [newCustomer s]
         \<and> (\<forall>v. json r = JsonValue v \<and> v \<noteq> JNull \<longrightarrow>
               (\<forall>t. property_message v = Some (JString t) \<and> t \<noteq> [] \<longrightarrow>
                  submitError (handleSubmit_resume e (Inr r) (handleSubmit s)) = Some t)
               \<and> (property_message v = None
                    \<or> (\<exists>y. property_message v = Some y \<and> \<not> json_truthy y) \<longrightarrow>
                  submitError (handleSubmit_resume e (Inr r) (handleSubmit s))
                    = Some (js ''Failed to create customer''))
               \<and> (\<forall>y t. property_message v = Some y \<and> json_truthy y
                          \<and> json_ToString e y = Inr t \<longrightarrow>
                  submitError (handleSubmit_resume e (Inr r) (handleSubmit s)) = Some t))"
proof -
  let ?s' = "handleSubmit_resume e (Inr r) (handleSubmit s)"
  have f: "failed (Inr r)"
    using assms(2) by (simp add: failed_def)
  obtain m where m: "?s' = (handleSubmit s)\<lparr>submitError := Some m, isSubmitting := False\<rparr>"
    using resume_failed [OF f] by blast
  have frame: "open ?s' = open s" "isSubmitting ?s' = False" "\<not> submitDisabled ?s'"
    "newCustomer ?s' = newCustomer s" "errors ?s' = Map.empty"
    "mutate_calls ?s' = mutate_calls s" "inflight (handleSubmit s) = inflight s @ [newCustomer s]"
    unfolding m by (simp_all add: submitDisabled_def handleSubmit_valid [OF assms(1)])
  have msg: "(\<forall>t. property_message v = Some (JString t) \<and> t \<noteq> [] \<longrightarrow> submitError ?s' = Some t)
       \<and> (property_message v = None \<or> (\<exists>y. property_message v = Some y \<and> \<not> json_truthy y) \<longrightarrow>
            submitError ?s' = Some (js ''Failed to create customer''))
       \<and> (\<forall>y t. property_message v = Some y \<and> json_truthy y \<and> json_ToString e y = Inr t \<longrightarrow>
            submitError ?s' = Some t)"
    if v: "json r = JsonValue v" "v \<noteq> JNull" for v
  proof (intro conjI allI impI)
    fix t assume "property_message v = Some (JString t) \<and> t \<noteq> []"
    then show "submitError ?s' = Some t"
      by (simp add: resume_not_ok [OF assms(2) v] or_string_def throw_new_Error_def)
  next
    assume "property_message v = None \<or> (\<exists>y. property_message v = Some y \<and> \<not> json_truthy y)"
    then have "or_string (property_message v) (js ''Failed to create customer'')
                 = JString (js ''Failed to create customer'')"
      by (rule or_string_falsy)
    then show "submitError ?s' = Some (js ''Failed to create customer'')"
      by (simp add: resume_not_ok [OF assms(2) v] throw_new_Error_def)
  next
    fix y t assume "property_message v = Some y \<and> json_truthy y \<and> json_ToString e y = Inr t"
    then show "submitError ?s' = Some t"
      by (simp add: resume_not_ok [OF assms(2) v] or_string_truthy throw_new_Error_def)
  qed
  from frame msg show ?thesis by blast
qed

theorem submit_rejected_witness:
  "submitError (handleSubmit_resume someEngine (Inr emailExists) (handleSubmit editing))
     = Some (js ''Email already exists'')
   \<and> open (handleSubmit_resume someEngine (Inr emailExists) (handleSubmit editing))
   \<and> \<not> isSubmitting (handleSubmit_resume someEngine (Inr emailExists) (handleSubmit editing))
   \<and> newCustomer (handleSubmit_resume someEngine (Inr emailExists) (handleSubmit editing))
       = newCustomer editing
   \<and> errors (handleSubmit_resume someEngine (Inr emailExists) (handleSubmit editing))
       = Map.empty
   \<and> submitError (handleSubmit_resume someEngine (Inr numberMessage) (handleSubmit editing))
       = Some (js ''42'')
   \<and> submitError (handleSubmit_resume someEngine (Inr zeroMessage) (handleSubmit editing))
       = Some (js ''Failed to create customer'')"
proof -
  have n: "\<not> ok emailExists" "\<not> ok numberMessage" "\<not> ok zeroMessage"
    by (simp_all add: emailExists_def numberMessage_def zeroMessage_def ok_def)
  have j: "json emailExists
             = JsonValue (JObject [(js ''message'', JString (js ''Email already exists''))])"
    "JObject [(js ''message'', JString (js ''Email already exists''))] \<noteq> JNull"
    "property_message (JObject [(js ''message'', JString (js ''Email already exists''))])
       = Some (JString (js ''Email already exists''))"
    "js ''Email already exists'' \<noteq> []"
    by (simp_all add: emailExists_def js_def)
  have k: "json numberMessage = JsonValue (JObject [(js ''message'', JNumber False (js ''42''))])"
    "JObject [(js ''message'', JNumber False (js ''42''))] \<noteq> JNull"
    "property_message (JObject [(js ''message'', JNumber False (js ''42''))])
       = Some (JNumber False (js ''42''))"
    "json_truthy (JNumber False (js ''42''))"
    "json_ToString someEngine (JNumber False (js ''42'')) = Inr (js ''42'')"
    by (simp_all add: numberMessage_def)
  have z: "json zeroMessage = JsonValue (JObject [(js ''message'', JNumber True (js ''0''))])"
    "JObject [(js ''message'', JNumber True (js ''0''))] \<noteq> JNull"
    "property_message (JObject [(js ''message'', JNumber True (js ''0''))])
       = Some (JNumber True (js ''0''))"
    "\<not> json_truthy (JNumber True (js ''0''))"
    by (simp_all add: zeroMessage_def)
  have o: "open editing" by (simp add: editing_def)
  have 1: "submitError (handleSubmit_resume someEngine (Inr emailExists) (handleSubmit editing))
     = Some (js ''Email already exists'')"
    using submit_rejected [OF editing_valid n(1), of someEngine] j by simp
  have 2: "submitError (handleSubmit_resume someEngine (Inr numberMessage) (handleSubmit editing))
       = Some (js ''42'')"
    using submit_rejected [OF editing_valid n(2), of someEngine] k by simp
  have 3: "submitError (handleSubmit_resume someEngine (Inr zeroMessage) (handleSubmit editing))
       = Some (js ''Failed to create customer'')"
    using submit_rejected [OF editing_valid n(3), of someEngine] z by simp
  show ?thesis
    using submit_rejected [OF editing_valid n(1), of someEngine] o 1 2 3 by simp
qed

text \<open>
  C6. After a submit of a valid draft whose request gets a 2xx response, \<^verbatim>\<open>mutate\<close> has been
  called exactly once more, nothing waits for it, and the state is what \<open>handleClose\<close> gives:
  dialog closed, draft of four empty strings, no field errors, no submit error; the
  \<^verbatim>\<open>finally\<close> clause has reset \<^verbatim>\<open>isSubmitting\<close>. The request carried the draft.
\<close>

theorem submit_succeeds:
  assumes "fst (validate s)" and "ok r"
  shows "mutate_calls (handleSubmit_resume e (Inr r) (handleSubmit s)) = Suc (mutate_calls s)
         \<and> open (handleSubmit_resume e (Inr r) (handleSubmit s)) = False
         \<and> newCustomer (handleSubmit_resume e (Inr r) (handleSubmit s))
             = [firstName \<mapsto> [], lastName \<mapsto> [], email \<mapsto> [], businessName \<mapsto> []]
         \<and> errors (handleSubmit_resume e (Inr r) (handleSubmit s)) = Map.empty
         \<and> submitError (handleSubmit_resume e (Inr r) (handleSubmit s)) = None
         \<and> isSubmitting (handleSubmit_resume e (Inr r) (handleSubmit s)) = False
         \<and> inflight (handleSubmit s) = inflight s @ [newCustomer s]
         \<and> handleSubmit_resume e (Inr r) (handleSubmit s)
             = (handleClose s)\<lparr>isSubmitting := False, inflight := inflight s @ [newCustomer s],
                 mutate_calls := Suc (mutate_calls s)\<rparr>"
  by (simp add: resume_ok [OF assms(2)] handleSubmit_valid [OF assms(1)] handleClose_def
      emptyCustomer_def)

theorem submit_succeeds_witness:
  "handleSubmit_resume someEngine (Inr created) (handleSubmit editing)
     = initial\<lparr>inflight := [newCustomer editing], mutate_calls := 1\<rparr>
   \<and> mutate_calls (handleSubmit_resume someEngine (Inr created) (handleSubmit editing)) = 1"
proof -
  have k: "ok created" by (simp add: created_def ok_def)
  show ?thesis
    using submit_succeeds [OF editing_valid k, of someEngine]
    by (simp add: editing_def initial_def handleClose_def)
qed

text \<open>
  C7. When \<open>validate\<close> returns false, \<open>handleSubmit\<close> does nothing but install the error
  record of \<open>validate\<close>: no request is issued, \<^verbatim>\<open>open\<close> and \<^verbatim>\<open>isSubmitting\<close> keep their
  values, and the record holds an entry for each failing field, at least one.
\<close>

theorem submit_invalid:
  assumes "\<not> fst (validate s)"
  shows "handleSubmit s = s\<lparr>errors := errors (snd (validate s))\<rparr>
         \<and> inflight (handleSubmit s) = inflight s
         \<and> open (handleSubmit s) = open s
         \<and> isSubmitting (handleSubmit s) = isSubmitting s
         \<and> dom (errors (handleSubmit s)) = {f. spec_field_fails (newCustomer s) f}
         \<and> (\<exists>f. errors (handleSubmit s) f \<noteq> None)"
proof -
  have "handleSubmit s = snd (validate s)"
    using assms by (rule handleSubmit_invalid)
  also have "\<dots> = s\<lparr>errors := errors (snd (validate s))\<rparr>"
    by (rule validate_snd)
  finally have h: "handleSubmit s = s\<lparr>errors := errors (snd (validate s))\<rparr>" .
  have d: "dom (errors (snd (validate s))) = {f. spec_field_fails (newCustomer s) f}"
    using validate_fails_iff [of s] by (auto simp: dom_def)
  have e: "\<exists>f. errors (snd (validate s)) f \<noteq> None"
    using assms validate_fst [of s] by simp
  have "errors (handleSubmit s) = errors (snd (validate s))"
    by (subst h) simp
  with d e have "dom (errors (handleSubmit s)) = {f. spec_field_fails (newCustomer s) f}"
    "\<exists>f. errors (handleSubmit s) f \<noteq> None" by simp_all
  moreover have "inflight (handleSubmit s) = inflight s" "open (handleSubmit s) = open s"
    "isSubmitting (handleSubmit s) = isSubmitting s"
    by (subst h, simp)+
  ultimately show ?thesis using h by blast
qed

theorem submit_invalid_witness:
  "\<not> fst (validate rejectedDraft)
   \<and> handleSubmit rejectedDraft =
       rejectedDraft\<lparr>errors :=
         [firstName \<mapsto> js ''First name should contain only letters'',
          email \<mapsto> js ''Email should be valid (e.g., user@example.com)'']\<rparr>
   \<and> inflight (handleSubmit rejectedDraft) = []
   \<and> open (handleSubmit rejectedDraft)"
proof -
  have 1: "\<not> fst (validate rejectedDraft)"
    by (simp add: rejectedDraft_def eval_defs)
  have 2: "errors (snd (validate rejectedDraft)) =
         [firstName \<mapsto> js ''First name should contain only letters'',
          email \<mapsto> js ''Email should be valid (e.g., user@example.com)'']"
    by (simp add: rejectedDraft_def eval_defs)
  have 3: "inflight rejectedDraft = []" "open rejectedDraft"
    by (simp_all add: rejectedDraft_def)
  show ?thesis
    using submit_invalid [OF 1] 1 2 3 by simp
qed

section \<open>Closing and editing\<close>

text \<open>
  C8. \<open>handleClose\<close> closes the dialog from any state, resets the draft to four empty strings,
  empties the error record and clears the submit error; applied twice it gives what it gives
  applied once. It leaves \<^verbatim>\<open>isSubmitting\<close> as it is.
\<close>

theorem close_idempotent:
  "handleClose (handleClose s) = handleClose s
   \<and> open (handleClose s) = False
   \<and> newCustomer (handleClose s)
       = [firstName \<mapsto> [], lastName \<mapsto> [], email \<mapsto> [], businessName \<mapsto> []]
   \<and> errors (handleClose s) = Map.empty
   \<and> submitError (handleClose s) = None
   \<and> isSubmitting (handleClose s) = isSubmitting s"
  by (simp add: handleClose_def emptyCustomer_def)

theorem close_idempotent_witness:
  "handleClose (handleClose shownErrors) = handleClose shownErrors
   \<and> handleClose shownErrors = initial"
  using close_idempotent [of shownErrors]
  by (simp add: shownErrors_def rejectedDraft_def initial_def handleClose_def)

lemma handleChange_truthy:
  "truthy (errors s f) \<Longrightarrow>
     handleChange f v s = s\<lparr>newCustomer := (newCustomer s)(f \<mapsto> v), errors := (errors s)(f \<mapsto> [])\<rparr>"
  by (simp add: handleChange_def Let_def)

lemma handleChange_falsy:
  "\<not> truthy (errors s f) \<Longrightarrow> handleChange f v s = s\<lparr>newCustomer := (newCustomer s)(f \<mapsto> v)\<rparr>"
  by (simp add: handleChange_def Let_def)

text \<open>
  C9. A change of field \<open>f\<close> to \<open>v\<close> sets that field of the draft and no other. If \<open>f\<close> has an
  error, its entry becomes the empty string (which the view shows as no error); the entries
  of the other fields stay, no field gains an error or an entry, the new error record does
  not depend on the draft or on \<open>v\<close>, and nothing else of the state changes.
\<close>

theorem change_frame:
  "newCustomer (handleChange f v s) = (newCustomer s)(f \<mapsto> v)
   \<and> (\<forall>g. g \<noteq> f \<longrightarrow> newCustomer (handleChange f v s) g = newCustomer s g)
   \<and> errors (handleChange f v s) f = (if truthy (errors s f) then Some [] else errors s f)
   \<and> (\<forall>g. g \<noteq> f \<longrightarrow> errors (handleChange f v s) g = errors s g)
   \<and> (\<forall>g. truthy (errors (handleChange f v s) g) \<longrightarrow> truthy (errors s g))
   \<and> dom (errors (handleChange f v s)) = dom (errors s)
   \<and> errors (handleChange f v (s\<lparr>newCustomer := d\<rparr>)) = errors (handleChange f v' s)
   \<and> open (handleChange f v s) = open s
   \<and> submitError (handleChange f v s) = submitError s
   \<and> isSubmitting (handleChange f v s) = isSubmitting s
   \<and> page.more (handleChange f v s) = page.more s"
proof (cases "truthy (errors s f)")
  case True
  then obtain m where m: "errors s f = Some m"
    by (cases "errors s f") simp_all
  then have "dom ((errors s)(f \<mapsto> [])) = dom (errors s)"
    by auto
  moreover have "truthy (errors (s\<lparr>newCustomer := d\<rparr>) f)"
    using True by simp
  ultimately show ?thesis
    using True
    by (simp add: handleChange_truthy)
next
  case False
  moreover have "\<not> truthy (errors (s\<lparr>newCustomer := d\<rparr>) f)"
    using False by simp
  ultimately show ?thesis
    by (simp add: handleChange_falsy)
qed

theorem change_frame_witness:
  "newCustomer (handleChange firstName (js ''J4ne5'') shownErrors) firstName = Some (js ''J4ne5'')
   \<and> newCustomer (handleChange firstName (js ''J4ne5'') shownErrors) email
       = Some (js ''user@example'')
   \<and> errors (handleChange firstName (js ''J4ne5'') shownErrors) firstName = Some []
   \<and> errors (handleChange firstName (js ''J4ne5'') shownErrors) email
       = Some (js ''Email should be valid (e.g., user@example.com)'')
   \<and> errors (handleChange firstName (js ''J4ne5'') shownErrors) lastName = None"
proof -
  have t: "truthy (errors shownErrors firstName)"
    by (simp add: shownErrors_def js_def)
  have e: "errors shownErrors email = Some (js ''Email should be valid (e.g., user@example.com)'')"
          "errors shownErrors lastName = None"
          "newCustomer shownErrors email = Some (js ''user@example'')"
    by (simp_all add: shownErrors_def rejectedDraft_def)
  show ?thesis
    using change_frame [of firstName "js ''J4ne5''" shownErrors] t e
    by simp
qed

text \<open>
  C10, as stated: after a submit, a close and the failure of the request, the stale error
  would be visible when the dialog is opened again. With the body \<^verbatim>\<open>{"message":[]}\<close> of a
  response that is not ok, the message of the new error is \<^verbatim>\<open>ToString([])\<close>, the empty
  string; the failure handler stores it, and the alert, which is rendered for a truthy
  \<^verbatim>\<open>submitError\<close> only, does not show.
\<close>

theorem close_then_failure_counterexample:
  "fst (validate editing) \<and> failed (Inr arrayMessage)
   \<and> submitError (handleSubmit_resume someEngine (Inr arrayMessage)
        (handleClose (handleSubmit editing))) = Some []
   \<and> open (handleOpen (handleSubmit_resume someEngine (Inr arrayMessage)
        (handleClose (handleSubmit editing))))
   \<and> \<not> alertShown (handleOpen (handleSubmit_resume someEngine (Inr arrayMessage)
        (handleClose (handleSubmit editing))))"
proof -
  have n: "\<not> ok arrayMessage"
    "json arrayMessage = JsonValue (JObject [(js ''message'', JArray [])])"
    "JObject [(js ''message'', JArray [])] \<noteq> JNull"
    by (simp_all add: arrayMessage_def ok_def)
  have f: "failed (Inr arrayMessage)"
    using n(1) by (simp add: failed_def)
  have "handleSubmit_resume someEngine (Inr arrayMessage) (handleClose (handleSubmit editing))
        = (handleClose (handleSubmit editing))\<lparr>submitError := Some [], isSubmitting := False\<rparr>"
    by (simp add: resume_not_ok [OF n] or_string_def throw_new_Error_def)
  then show ?thesis
    using f editing_valid by (simp add: alertShown_def handleOpen_def)
qed

text \<open>
  C10, amended: a submit of a valid draft, then a close, then the failure of the request (a
  rejected fetch or a response that is not ok): the close has cleared the submit error, yet
  the failure handler sets it while the dialog is closed, and \<open>handleOpen\<close> does not clear it.
  So the clearing is not durable, and on the next open the alert shows the stale error
  exactly when its text is not the empty string.
\<close>

theorem close_then_failure:
  assumes "fst (validate s)" and "failed settled"
  shows "submitError (handleClose (handleSubmit s)) = None
         \<and> \<not> open (handleSubmit_resume e settled (handleClose (handleSubmit s)))
         \<and> submitError (handleSubmit_resume e settled (handleClose (handleSubmit s))) \<noteq> None
         \<and> open (handleOpen (handleSubmit_resume e settled (handleClose (handleSubmit s))))
         \<and> submitError (handleOpen (handleSubmit_resume e settled (handleClose (handleSubmit s))))
             = submitError (handleSubmit_resume e settled (handleClose (handleSubmit s)))
         \<and> (alertShown (handleOpen (handleSubmit_resume e settled (handleClose (handleSubmit s))))
              \<longleftrightarrow> submitError (handleSubmit_resume e settled (handleClose (handleSubmit s)))
                   \<noteq> Some [])"
proof -
  let ?c = "handleClose (handleSubmit s)"
  obtain m where
    m: "handleSubmit_resume e settled ?c = ?c\<lparr>submitError := Some m, isSubmitting := False\<rparr>"
    using resume_failed [OF assms(2)] by blast
  have c: "submitError ?c = None" "\<not> open ?c"
    by (simp_all add: handleClose_def)
  show ?thesis
    using c by (simp add: m alertShown_def handleOpen_def)
qed

theorem close_then_failure_witness:
  "submitError (handleClose (handleSubmit editing)) = None
   \<and> submitError (handleSubmit_resume someEngine (Inr emailExists)
        (handleClose (handleSubmit editing))) = Some (js ''Email already exists'')
   \<and> \<not> open (handleSubmit_resume someEngine (Inr emailExists)
        (handleClose (handleSubmit editing)))
   \<and> alertShown (handleOpen (handleSubmit_resume someEngine (Inr emailExists)
        (handleClose (handleSubmit editing))))"
proof -
  have n: "\<not> ok emailExists"
    "json emailExists
       = JsonValue (JObject [(js ''message'', JString (js ''Email already exists''))])"
    "JObject [(js ''message'', JString (js ''Email already exists''))] \<noteq> JNull"
    by (simp_all add: emailExists_def ok_def)
  have f: "failed (Inr emailExists)"
    using n(1) by (simp add: failed_def)
  have 1: "submitError (handleSubmit_resume someEngine (Inr emailExists)
        (handleClose (handleSubmit editing))) = Some (js ''Email already exists'')"
    by (simp add: resume_not_ok [OF n] or_string_def throw_new_Error_def js_def)
  show ?thesis
    using close_then_failure [OF editing_valid f, of someEngine] 1
    by (simp add: js_def)
qed

end
